theory Spec2Isabelle
  imports Main "HOL-Library.AList"
begin

section \<open>Python values and strings\<close>

text \<open>
  The scalar values that travel through \<^verbatim>\<open>limeutils/redis/redis.py\<close>: Python's
  \<^verbatim>\<open>None\<close>, \<^verbatim>\<open>str\<close>, \<^verbatim>\<open>int\<close> and \<^verbatim>\<open>float\<close>. Strings are lists of characters,
  integers are unbounded. Of a float the code uses its \<^verbatim>\<open>repr\<close> (the text the store
  client writes), its truthiness and its comparison with 0, and no arithmetic; a float is
  therefore represented by the text that \<^verbatim>\<open>repr\<close> prints for it, which identifies it
  (\<^verbatim>\<open>float(repr(x)) == x\<close>). The floats of the model are the finite ones that
  \<^verbatim>\<open>repr\<close> prints in positional notation, such as \<^verbatim>\<open>12.5\<close>, \<^verbatim>\<open>0.0\<close> and
  \<^verbatim>\<open>-3.25\<close>; exponent notation, infinities and NaN are outside it.
\<close>

datatype pyval = PyNone | PyStr string | PyInt int | PyFloat string

text \<open>The two floats that equal 0.\<close>

definition float_zero :: "string \<Rightarrow> bool" where
  "float_zero t = (t = ''0.0'' \<or> t = ''-0.0'')"

text \<open>Python truthiness (\<^verbatim>\<open>bool(v)\<close>) and the comparison \<^verbatim>\<open>v == 0\<close>.\<close>

fun truthy :: "pyval \<Rightarrow> bool" where
  "truthy PyNone = False"
| "truthy (PyStr s) = (s \<noteq> [])"
| "truthy (PyInt n) = (n \<noteq> 0)"
| "truthy (PyFloat t) = (\<not> float_zero t)"

fun eq_zero :: "pyval \<Rightarrow> bool" where
  "eq_zero (PyInt n) = (n = 0)"
| "eq_zero (PyFloat t) = float_zero t"
| "eq_zero v = False"

text \<open>
  \<^verbatim>\<open>str.strip()\<close> removes leading and trailing whitespace. On ASCII text Python's
  whitespace is the characters 0x09 to 0x0D, 0x1C to 0x1F and the space.
\<close>

definition is_space :: "char \<Rightarrow> bool" where
  "is_space c = (c \<in> set [CHR 0x09, CHR 0x0A, CHR 0x0B, CHR 0x0C, CHR 0x0D,
                            CHR 0x1C, CHR 0x1D, CHR 0x1E, CHR 0x1F, CHR 0x20])"

definition strip :: "string \<Rightarrow> string" where
  "strip s = rev (dropWhile is_space (rev (dropWhile is_space s)))"

text \<open>\<^verbatim>\<open>sep.join(xs)\<close>.\<close>

fun join :: "string \<Rightarrow> string list \<Rightarrow> string" where
  "join sep [] = []"
| "join sep [x] = x"
| "join sep (x # y # ys) = x @ sep @ join sep (y # ys)"

text \<open>
  \<^verbatim>\<open>a and a or b\<close> for an optional string \<open>a\<close> and a string \<open>b\<close>: \<open>a\<close> when it is
  truthy (neither \<^verbatim>\<open>None\<close> nor empty), otherwise \<open>b\<close>.
\<close>

fun and_or :: "string option \<Rightarrow> string \<Rightarrow> string" where
  "and_or None b = b"
| "and_or (Some a) b = (if a \<noteq> [] then a else b)"


text \<open>
  How the store client writes a value on the wire: a string as its text, an integer as its
  decimal \<^verbatim>\<open>repr\<close>, a float as its \<^verbatim>\<open>repr\<close>; \<^verbatim>\<open>None\<close> is refused (the client
  raises \<^verbatim>\<open>DataError\<close>).
\<close>

fun decimal :: "nat \<Rightarrow> string" where
  "decimal n =
     (if n < 10 then [''0123456789'' ! n]
      else decimal (n div 10) @ [''0123456789'' ! (n mod 10)])"

declare decimal.simps [simp del]

definition repr_int :: "int \<Rightarrow> string" where
  "repr_int i = (if i < 0 then CHR ''-'' # decimal (nat (- i)) else decimal (nat i))"

fun encode :: "pyval \<Rightarrow> string option" where
  "encode PyNone = None"
| "encode (PyStr s) = Some s"
| "encode (PyInt i) = Some (repr_int i)"
| "encode (PyFloat t) = Some t"

text \<open>
  Modelled from the spec: the helper \<^verbatim>\<open>byte_conv\<close> of the package, which
  \<^verbatim>\<open>redis.py\<close> imports and whose source is not among the files. It converts a raw
  reply into a native scalar: a missing reply is the absent marker \<^verbatim>\<open>None\<close>, the
  text of an integer is that integer and the text of a float is that float (the test
  \<^verbatim>\<open>test_set\<close> reads 123 and 0 back as integers and 12.5 as a float), any other text
  is the string itself. The read operations below take the decoder as their first
  argument \<open>bc\<close>; \<open>byte_conv\<close> is the instance used at concrete inputs.
\<close>

definition is_digit :: "char \<Rightarrow> bool" where
  "is_digit c = (c \<in> set ''0123456789'')"

definition digit_val :: "char \<Rightarrow> nat" where
  "digit_val c = of_char c - 48"

definition to_nat :: "string \<Rightarrow> nat" where
  "to_nat s = foldl (\<lambda>a c. 10 * a + digit_val c) 0 s"

definition parse_int :: "string \<Rightarrow> int option" where
  "parse_int s =
     (case s of
        [] \<Rightarrow> None
      | c # cs \<Rightarrow>
          if c = CHR ''-'' then
            (if cs \<noteq> [] \<and> list_all is_digit cs then Some (- int (to_nat cs)) else None)
          else if list_all is_digit s then Some (int (to_nat s))
          else None)"

text \<open>
  The text of a float: an optional minus sign, digits, a point, digits. The float it
  denotes is the one whose \<^verbatim>\<open>repr\<close> is that text without the leading zeros of its
  integer part and the trailing zeros of its fraction, one digit kept on each side.
\<close>

definition unsigned :: "string \<Rightarrow> string" where
  "unsigned s = (case s of [] \<Rightarrow> [] | c # cs \<Rightarrow> if c = CHR ''-'' then cs else s)"

definition int_part :: "string \<Rightarrow> string" where
  "int_part s = takeWhile (\<lambda>c. c \<noteq> CHR ''.'') (unsigned s)"

definition frac_part :: "string \<Rightarrow> string" where
  "frac_part s = drop (Suc (length (int_part s))) (unsigned s)"

definition float_text :: "string \<Rightarrow> bool" where
  "float_text s =
     (int_part s \<noteq> [] \<and> list_all is_digit (int_part s)
      \<and> length (int_part s) < length (unsigned s)
      \<and> frac_part s \<noteq> [] \<and> list_all is_digit (frac_part s))"

definition drop_zeros :: "string \<Rightarrow> string" where
  "drop_zeros ds = (case dropWhile (\<lambda>c. c = CHR ''0'') ds of [] \<Rightarrow> ''0'' | r # rs \<Rightarrow> r # rs)"

definition float_canon :: "string \<Rightarrow> string" where
  "float_canon s =
     (if unsigned s = s then [] else ''-'')
     @ drop_zeros (int_part s) @ ''.'' @ rev (drop_zeros (rev (frac_part s)))"


fun byte_conv :: "string option \<Rightarrow> pyval" where
  "byte_conv None = PyNone"
| "byte_conv (Some b) =
     (case parse_int b of
        Some i \<Rightarrow> PyInt i
      | None \<Rightarrow> if float_text b then PyFloat (float_canon b) else PyStr b)"

text \<open>
  A Python \<^verbatim>\<open>dict\<close> keeps its keys in insertion order; \<^verbatim>\<open>dict(pairs)\<close> inserts the
  pairs from left to right, a repeated key keeping its first position and taking the
  later value.
\<close>

definition py_dict :: "('k \<times> 'v) list \<Rightarrow> ('k \<times> 'v) list" where
  "py_dict pairs = foldl (\<lambda>d (k, v). AList.update k v d) [] pairs"

text \<open>
  The sequences the operations accept where the source says \<^verbatim>\<open>LT\<close>: a list or a
  tuple of strings. The source tells them apart with \<^verbatim>\<open>isinstance(fields, list)\<close>.
\<close>

datatype pyseq = PyList "string list" | PyTuple "string list"

fun items :: "pyseq \<Rightarrow> string list" where
  "items (PyList xs) = xs"
| "items (PyTuple xs) = xs"

text \<open>An argument that is a single string or a sequence of strings.\<close>

datatype str_or_seq = One string | Many pyseq

section \<open>The store\<close>

text \<open>
  The store capability behind \<^verbatim>\<open>self.r\<close>: a key holds a string or a hash (its fields
  in insertion order) and may carry an expiration in seconds; \<open>calls\<close> is the trace of
  the commands that reached the store. The commands behave as the store documents them:
  SET with the exists-only and keep-ttl flags, EXPIRE, HSET, GET, HGET, HMGET, HGETALL,
  HDEL and DEL.
\<close>

datatype entry = Str string | Hash "(string \<times> string) list"

datatype cmd =
    SET string string bool bool
  | EXPIRE string int
  | HSET string "(string \<times> string) list"
  | GET string
  | HGET string string
  | HMGET string "string list"
  | HGETALL string
  | HDEL string "string list"
  | DEL "string list"

record store =
  db :: "string \<rightharpoonup> entry"
  ttls :: "string \<rightharpoonup> int"
  calls :: "cmd list"

text \<open>
  What an operation can raise: a validation failure of its arguments, the client's
  \<^verbatim>\<open>DataError\<close> (raised before anything is sent) and the store's \<^verbatim>\<open>ResponseError\<close>.
\<close>

datatype error = ValidationFailure | DataError | ResponseError

type_synonym 'a io = "store \<Rightarrow> (error + 'a) \<times> store"

text \<open>Sequencing: an exception of the first step ends the operation.\<close>

definition andthen :: "'a io \<Rightarrow> ('a \<Rightarrow> 'b io) \<Rightarrow> 'b io" where
  "andthen m f = (\<lambda>s. case m s of (Inl e, s') \<Rightarrow> (Inl e, s') | (Inr x, s') \<Rightarrow> f x s')"

definition return :: "'a \<Rightarrow> 'a io" where
  "return x = (\<lambda>s. (Inr x, s))"

definition sent :: "cmd \<Rightarrow> store \<Rightarrow> store" where
  "sent c s = s\<lparr>calls := calls s @ [c]\<rparr>"

text \<open>
  \<^verbatim>\<open>r.set(name, value, xx=..., keepttl=...)\<close>: with \<^verbatim>\<open>xx\<close> the key is written only if it
  exists already; a write drops the key's expiration unless \<^verbatim>\<open>keepttl\<close> is given. The
  reply is \<^verbatim>\<open>True\<close>, or \<^verbatim>\<open>None\<close> (here \<open>False\<close>) when nothing was written.
\<close>

definition r_set :: "string \<Rightarrow> pyval \<Rightarrow> bool \<Rightarrow> bool \<Rightarrow> bool io" where
  "r_set name value xx' keepttl' s =
     (case encode value of
        None \<Rightarrow> (Inl DataError, s)
      | Some b \<Rightarrow>
          let s' = sent (SET name b xx' keepttl') s in
          if xx' \<and> db s name = None then (Inr False, s')
          else (Inr True,
                s'\<lparr>db := (db s)(name \<mapsto> Str b),
                   ttls := (if keepttl' then ttls s else (ttls s)(name := None))\<rparr>))"

text \<open>
  \<^verbatim>\<open>r.expire(name, time)\<close>: no effect on a key that does not exist; a time that is not
  positive deletes the key.
\<close>

definition r_expire :: "string \<Rightarrow> int \<Rightarrow> bool io" where
  "r_expire name time s =
     (let s' = sent (EXPIRE name time) s in
      if db s name = None then (Inr False, s')
      else if time \<le> 0 then
        (Inr True, s'\<lparr>db := (db s)(name := None), ttls := (ttls s)(name := None)\<rparr>)
      else (Inr True, s'\<lparr>ttls := (ttls s)(name \<mapsto> time)\<rparr>))"

fun encode_items :: "(string \<times> pyval) list \<Rightarrow> (string \<times> string) list option" where
  "encode_items [] = Some []"
| "encode_items ((f, v) # xs) =
     (case encode v of
        None \<Rightarrow> None
      | Some b \<Rightarrow> (case encode_items xs of None \<Rightarrow> None | Some ys \<Rightarrow> Some ((f, b) # ys)))"

text \<open>Writing fields into a hash, counting the fields that are new.\<close>

fun put_fields :: "(string \<times> string) list \<Rightarrow> (string \<times> string) list \<Rightarrow> nat
    \<Rightarrow> (string \<times> string) list \<times> nat" where
  "put_fields [] h n = (h, n)"
| "put_fields ((f, b) # xs) h n =
     put_fields xs (AList.update f b h) (if map_of h f = None then n + 1 else n)"

text \<open>
  \<^verbatim>\<open>r.hset(name, key, value, mapping)\<close>: the client refuses a call with no pair; the
  store refuses a key that holds a string.
\<close>

definition r_hset :: "string \<Rightarrow> string option \<Rightarrow> pyval \<Rightarrow> (string \<times> pyval) list option
    \<Rightarrow> nat io" where
  "r_hset name key' value mapping' s =
     (let pairs = (case key' of None \<Rightarrow> [] | Some f \<Rightarrow> [(f, value)])
                  @ (case mapping' of None \<Rightarrow> [] | Some m \<Rightarrow> m)
      in if pairs = [] then (Inl DataError, s)
         else
           (case encode_items pairs of
              None \<Rightarrow> (Inl DataError, s)
            | Some bs \<Rightarrow>
                let s' = sent (HSET name bs) s in
                (case db s name of
                   Some (Str x) \<Rightarrow> (Inl ResponseError, s')
                 | Some (Hash h) \<Rightarrow>
                     (Inr (snd (put_fields bs h 0)),
                      s'\<lparr>db := (db s)(name \<mapsto> Hash (fst (put_fields bs h 0)))\<rparr>)
                 | None \<Rightarrow>
                     (Inr (snd (put_fields bs [] 0)),
                      s'\<lparr>db := (db s)(name \<mapsto> Hash (fst (put_fields bs [] 0)))\<rparr>))))"

definition r_get :: "string \<Rightarrow> string option io" where
  "r_get name s =
     (let s' = sent (GET name) s in
      case db s name of
        None \<Rightarrow> (Inr None, s')
      | Some (Str b) \<Rightarrow> (Inr (Some b), s')
      | Some (Hash h) \<Rightarrow> (Inl ResponseError, s'))"

definition r_hget :: "string \<Rightarrow> string \<Rightarrow> string option io" where
  "r_hget name key' s =
     (let s' = sent (HGET name key') s in
      case db s name of
        None \<Rightarrow> (Inr None, s')
      | Some (Str b) \<Rightarrow> (Inl ResponseError, s')
      | Some (Hash h) \<Rightarrow> (Inr (map_of h key'), s'))"

text \<open>HMGET and HDEL need at least one field, DEL at least one key.\<close>

definition r_hmget :: "string \<Rightarrow> string list \<Rightarrow> string option list io" where
  "r_hmget name keys' s =
     (let s' = sent (HMGET name keys') s in
      if keys' = [] then (Inl ResponseError, s')
      else
        (case db s name of
           None \<Rightarrow> (Inr (map (\<lambda>f. None) keys'), s')
         | Some (Str b) \<Rightarrow> (Inl ResponseError, s')
         | Some (Hash h) \<Rightarrow> (Inr (map (map_of h) keys'), s')))"

definition r_hgetall :: "string \<Rightarrow> (string \<times> string) list io" where
  "r_hgetall name s =
     (let s' = sent (HGETALL name) s in
      case db s name of
        None \<Rightarrow> (Inr [], s')
      | Some (Str b) \<Rightarrow> (Inl ResponseError, s')
      | Some (Hash h) \<Rightarrow> (Inr h, s'))"

text \<open>HDEL removes the key with its last field.\<close>

definition r_hdel :: "string \<Rightarrow> string list \<Rightarrow> nat io" where
  "r_hdel name keys' s =
     (let s' = sent (HDEL name keys') s in
      if keys' = [] then (Inl ResponseError, s')
      else
        (case db s name of
           None \<Rightarrow> (Inr 0, s')
         | Some (Str b) \<Rightarrow> (Inl ResponseError, s')
         | Some (Hash h) \<Rightarrow>
             let h' = filter (\<lambda>p. fst p \<notin> set keys') h;
                 n = length (filter (\<lambda>f. map_of h f \<noteq> None) (remdups keys'))
             in if h' = [] then
                  (Inr n, s'\<lparr>db := (db s)(name := None), ttls := (ttls s)(name := None)\<rparr>)
                else (Inr n, s'\<lparr>db := (db s)(name \<mapsto> Hash h')\<rparr>)))"

definition r_delete :: "string list \<Rightarrow> nat io" where
  "r_delete names s =
     (let s' = sent (DEL names) s in
      if names = [] then (Inl ResponseError, s')
      else
        (Inr (length (filter (\<lambda>k. db s k \<noteq> None) (remdups names))),
         s'\<lparr>db := (\<lambda>k. if k \<in> set names then None else db s k),
            ttls := (\<lambda>k. if k \<in> set names then None else ttls s k)\<rparr>))"

section \<open>The client and its command models\<close>

text \<open>
  A \<^verbatim>\<open>Redis\<close> instance holds the instance prefix \<^verbatim>\<open>self.pre\<close> and version
  \<^verbatim>\<open>self.ver\<close>; \<^verbatim>\<open>ttl\<close> is the class attribute.
\<close>

record Redis =
  self_pre :: string
  self_ver :: string

definition self_ttl :: int where
  "self_ttl = 1209600"

text \<open>
  The validated data of \<^verbatim>\<open>delete\<close>, whose \<^verbatim>\<open>key\<close> is a sequence of base keys.
\<close>

record Delete =
  key :: "string list"
  pre :: "string option"
  ver :: "string option"

text \<open>
  The validated data of a command: every model carries \<^verbatim>\<open>key\<close>, \<^verbatim>\<open>pre\<close> and
  \<^verbatim>\<open>ver\<close>; the per-call prefix and version default to \<^verbatim>\<open>None\<close>.
\<close>

record StarterModel =
  key :: string
  pre :: "string option"
  ver :: "string option"

text \<open>\<^verbatim>\<open>Redis._cleankey\<close>.\<close>

definition cleankey :: "Redis \<Rightarrow> 'a StarterModel_scheme \<Rightarrow> string" where
  "cleankey self data =
     (let pre' = and_or (pre data) (strip (self_pre self));
          ver' = and_or (ver data) (strip (self_ver self));
          lst = [pre', ver', key data];
          lst' = filter (\<lambda>x. x \<noteq> []) lst
      in join '':'' lst')"

text \<open>
  The key composer as the specification words it, over five strings: the effective
  prefix is the per-call prefix if non-empty, else the trimmed instance prefix; likewise
  the version; the empty elements of the ordered list of prefix, version and base key
  are dropped and the rest is joined with a colon.
\<close>

definition compose :: "string \<Rightarrow> string \<Rightarrow> string \<Rightarrow> string \<Rightarrow> string \<Rightarrow> string" where
  "compose instance_prefix instance_version call_prefix call_version base_key =
     (let effective_prefix = (if call_prefix \<noteq> [] then call_prefix else strip instance_prefix);
          effective_version = (if call_version \<noteq> [] then call_version else strip instance_version)
      in join '':'' (filter (\<lambda>x. x \<noteq> []) [effective_prefix, effective_version, base_key]))"

text \<open>The string a per-call override stands for: \<^verbatim>\<open>None\<close> counts as empty.\<close>

definition override :: "string option \<Rightarrow> string" where
  "override a = (case a of None \<Rightarrow> [] | Some s \<Rightarrow> s)"


text \<open>
  Modelled from the spec: the command models of \<^verbatim>\<open>models.py\<close>, whose source is not
  among the files. Each normalises the arguments of its operation before anything is
  sent: the per-call \<^verbatim>\<open>pre\<close>, \<^verbatim>\<open>ver\<close> and \<^verbatim>\<open>ttl\<close> are passed on as given,
  \<^verbatim>\<open>None\<close> when unset; a single string for \<^verbatim>\<open>fields\<close> of \<^verbatim>\<open>hdel\<close> or for
  \<^verbatim>\<open>key\<close> of \<^verbatim>\<open>delete\<close> becomes a one-element sequence; the fields of \<^verbatim>\<open>hdel\<close> must
  reduce to a non-empty sequence. The types of the arguments here already have the shape
  the models ask for, so the other models accept every argument.
\<close>

record Set = StarterModel +
  val :: pyval
  xx :: bool
  keepttl :: bool
  ttl :: "int option"

record Hset = StarterModel +
  field :: string
  val :: pyval
  mapping :: "(string \<times> pyval) list option"
  ttl :: "int option"

record Hmset = StarterModel +
  mapping :: "(string \<times> pyval) list"
  ttl :: "int option"

record Get = StarterModel +
  default :: pyval

record Hget = StarterModel +
  default :: pyval

record Hmget = StarterModel +
  fields' :: "pyseq option"

record Hdel = StarterModel +
  fields' :: "string list"

definition models_Set :: "string \<Rightarrow> pyval \<Rightarrow> bool \<Rightarrow> bool \<Rightarrow> int option \<Rightarrow> string option
    \<Rightarrow> string option \<Rightarrow> error + Set" where
  "models_Set k v x kt t p vr =
     Inr \<lparr>StarterModel.key = k, StarterModel.pre = p, StarterModel.ver = vr,
          Set.val = v, xx = x, keepttl = kt, Set.ttl = t\<rparr>"

definition models_Hset :: "string \<Rightarrow> string \<Rightarrow> pyval \<Rightarrow> (string \<times> pyval) list option
    \<Rightarrow> int option \<Rightarrow> string option \<Rightarrow> string option \<Rightarrow> error + Hset" where
  "models_Hset k f v m t p vr =
     Inr \<lparr>StarterModel.key = k, StarterModel.pre = p, StarterModel.ver = vr,
          field = f, Hset.val = v, Hset.mapping = m, Hset.ttl = t\<rparr>"

definition models_Hmset :: "string \<Rightarrow> (string \<times> pyval) list \<Rightarrow> int option \<Rightarrow> string option
    \<Rightarrow> string option \<Rightarrow> error + Hmset" where
  "models_Hmset k m t p vr =
     Inr \<lparr>StarterModel.key = k, StarterModel.pre = p, StarterModel.ver = vr,
          Hmset.mapping = m, Hmset.ttl = t\<rparr>"

definition models_Get :: "string \<Rightarrow> pyval \<Rightarrow> string option \<Rightarrow> string option \<Rightarrow> error + Get" where
  "models_Get k d p vr =
     Inr \<lparr>StarterModel.key = k, StarterModel.pre = p, StarterModel.ver = vr, Get.default = d\<rparr>"

definition models_Hget :: "string \<Rightarrow> pyval \<Rightarrow> string option \<Rightarrow> string option \<Rightarrow> error + Hget" where
  "models_Hget k d p vr =
     Inr \<lparr>StarterModel.key = k, StarterModel.pre = p, StarterModel.ver = vr, Hget.default = d\<rparr>"

definition models_Hmget :: "string \<Rightarrow> pyseq option \<Rightarrow> string option \<Rightarrow> string option
    \<Rightarrow> error + Hmget" where
  "models_Hmget k fs p vr =
     Inr \<lparr>StarterModel.key = k, StarterModel.pre = p, StarterModel.ver = vr, Hmget.fields' = fs\<rparr>"

definition models_Hdel :: "string \<Rightarrow> str_or_seq option \<Rightarrow> string option \<Rightarrow> string option
    \<Rightarrow> error + Hdel" where
  "models_Hdel k fs p vr =
     (case fs of
        None \<Rightarrow> Inl ValidationFailure
      | Some (One f) \<Rightarrow> Inr \<lparr>StarterModel.key = k, StarterModel.pre = p, StarterModel.ver = vr,
               Hdel.fields' = [f]\<rparr>
      | Some (Many q) \<Rightarrow>
          if items q = [] then Inl ValidationFailure
          else Inr \<lparr>StarterModel.key = k, StarterModel.pre = p, StarterModel.ver = vr,
                    Hdel.fields' = items q\<rparr>)"

definition models_Delete :: "str_or_seq \<Rightarrow> string option \<Rightarrow> string option \<Rightarrow> error + Delete" where
  "models_Delete k p vr =
     Inr \<lparr>Delete.key = (case k of One x \<Rightarrow> [x] | Many q \<Rightarrow> items q),
          Delete.pre = p, Delete.ver = vr\<rparr>"


section \<open>The operations\<close>

text \<open>
  Each operation takes the client, the arguments of the Python method in their order
  (an argument left out is passed as its default) and the store, and returns what the
  method returns or raises, with the store after it. The read operations take the
  decoder \<open>bc\<close> first.

  The command models are declared in \<^verbatim>\<open>models.py\<close>, which is not among the files.
  The body of each method is therefore written over an arbitrary model first
  (\<open>Redis_set_with\<close> and the like, the model being the first argument), and the
  operation itself is the body at the model taken from the specification.
\<close>

definition Redis_set_with ::
    "(string \<Rightarrow> pyval \<Rightarrow> bool \<Rightarrow> bool
      \<Rightarrow> int option \<Rightarrow> string option
      \<Rightarrow> string option \<Rightarrow> error + Set)
    \<Rightarrow> Redis \<Rightarrow> string \<Rightarrow> pyval \<Rightarrow> bool \<Rightarrow> bool \<Rightarrow> int option
    \<Rightarrow> string option \<Rightarrow> string option \<Rightarrow> bool io" where
  "Redis_set_with model self key' val' xx' keepttl' ttl' pre' ver' s =
     (case model key' val' xx' keepttl' ttl' pre' ver' of
        Inl e \<Rightarrow> (Inl e, s)
      | Inr data \<Rightarrow>
          let k = cleankey self data;
              t = (case Set.ttl data of Some t' \<Rightarrow> t' | None \<Rightarrow> self_ttl)
          in andthen (r_set k (Set.val data) (xx data) (keepttl data))
               (\<lambda>ret. andthen (r_expire k t) (\<lambda>u. return ret)) s)"

definition Redis_set :: "Redis \<Rightarrow> string \<Rightarrow> pyval \<Rightarrow> bool \<Rightarrow> bool \<Rightarrow> int option
    \<Rightarrow> string option \<Rightarrow> string option \<Rightarrow> bool io" where
  "Redis_set = Redis_set_with models_Set"

definition Redis_hset_with ::
    "(string \<Rightarrow> string \<Rightarrow> pyval
      \<Rightarrow> (string \<times> pyval) list option \<Rightarrow> int option
      \<Rightarrow> string option \<Rightarrow> string option
      \<Rightarrow> error + Hset)
    \<Rightarrow> Redis \<Rightarrow> string \<Rightarrow> string \<Rightarrow> pyval \<Rightarrow> (string \<times> pyval) list option
    \<Rightarrow> int option \<Rightarrow> string option \<Rightarrow> string option \<Rightarrow> nat io" where
  "Redis_hset_with model self key' field' val' mapping' ttl' pre' ver' s =
     (case model key' field' val' mapping' ttl' pre' ver' of
        Inl e \<Rightarrow> (Inl e, s)
      | Inr data \<Rightarrow>
          let k = cleankey self data;
              t = (case Hset.ttl data of Some t' \<Rightarrow> t' | None \<Rightarrow> self_ttl)
          in andthen (r_hset k (Some (field data)) (Hset.val data) (Hset.mapping data))
               (\<lambda>ret. andthen (r_expire k t) (\<lambda>u. return ret)) s)"

definition Redis_hset :: "Redis \<Rightarrow> string \<Rightarrow> string \<Rightarrow> pyval \<Rightarrow> (string \<times> pyval) list option
    \<Rightarrow> int option \<Rightarrow> string option \<Rightarrow> string option \<Rightarrow> nat io" where
  "Redis_hset = Redis_hset_with models_Hset"

definition Redis_hmset_with ::
    "(string \<Rightarrow> (string \<times> pyval) list \<Rightarrow> int option
      \<Rightarrow> string option \<Rightarrow> string option
      \<Rightarrow> error + Hmset)
    \<Rightarrow> Redis \<Rightarrow> string \<Rightarrow> (string \<times> pyval) list \<Rightarrow> int option
    \<Rightarrow> string option \<Rightarrow> string option \<Rightarrow> nat io" where
  "Redis_hmset_with model self key' mapping' ttl' pre' ver' s =
     (if mapping' = [] then (Inr 0, s)
      else
        (case model key' mapping' ttl' pre' ver' of
           Inl e \<Rightarrow> (Inl e, s)
         | Inr data \<Rightarrow>
             let k = cleankey self data;
                 t = (case Hmset.ttl data of Some t' \<Rightarrow> t' | None \<Rightarrow> self_ttl)
             in andthen (r_hset k None PyNone (Some (Hmset.mapping data)))
                  (\<lambda>ret. andthen (r_expire k t) (\<lambda>u. return ret)) s))"

definition Redis_hmset :: "Redis \<Rightarrow> string \<Rightarrow> (string \<times> pyval) list \<Rightarrow> int option
    \<Rightarrow> string option \<Rightarrow> string option \<Rightarrow> nat io" where
  "Redis_hmset = Redis_hmset_with models_Hmset"

definition Redis_get_with ::
    "(string \<Rightarrow> pyval \<Rightarrow> string option \<Rightarrow> string option
      \<Rightarrow> error + Get)
    \<Rightarrow> (string option \<Rightarrow> pyval) \<Rightarrow> Redis \<Rightarrow> string \<Rightarrow> pyval
    \<Rightarrow> string option \<Rightarrow> string option \<Rightarrow> pyval io" where
  "Redis_get_with model bc self key' default' pre' ver' s =
     (case model key' default' pre' ver' of
        Inl e \<Rightarrow> (Inl e, s)
      | Inr data \<Rightarrow>
          let k = cleankey self data
          in andthen (r_get k)
               (\<lambda>reply. let v = bc reply
                         in return (if truthy v \<or> eq_zero v then v else default')) s)"

definition Redis_get :: "(string option \<Rightarrow> pyval) \<Rightarrow> Redis \<Rightarrow> string \<Rightarrow> pyval
    \<Rightarrow> string option \<Rightarrow> string option \<Rightarrow> pyval io" where
  "Redis_get = Redis_get_with models_Get"

definition Redis_hget_with ::
    "(string \<Rightarrow> pyval \<Rightarrow> string option \<Rightarrow> string option
      \<Rightarrow> error + Hget)
    \<Rightarrow> (string option \<Rightarrow> pyval) \<Rightarrow> Redis \<Rightarrow> string \<Rightarrow> string \<Rightarrow> pyval
    \<Rightarrow> string option \<Rightarrow> string option \<Rightarrow> pyval io" where
  "Redis_hget_with model bc self key' field' default' pre' ver' s =
     (case model key' default' pre' ver' of
        Inl e \<Rightarrow> (Inl e, s)
      | Inr data \<Rightarrow>
          let k = cleankey self data
          in andthen (r_hget k field')
               (\<lambda>reply. let v = bc reply
                         in return (if truthy v \<or> eq_zero v then v else default')) s)"

definition Redis_hget :: "(string option \<Rightarrow> pyval) \<Rightarrow> Redis \<Rightarrow> string \<Rightarrow> string \<Rightarrow> pyval
    \<Rightarrow> string option \<Rightarrow> string option \<Rightarrow> pyval io" where
  "Redis_hget = Redis_hget_with models_Hget"

text \<open>
  The result of \<^verbatim>\<open>hmget\<close> is a dictionary. Its keys are the requested field names
  when fields are given, and the decoded field names of the hash otherwise, so they are
  values here.
\<close>

definition Redis_hmget_with ::
    "(string \<Rightarrow> pyseq option \<Rightarrow> string option
      \<Rightarrow> string option \<Rightarrow> error + Hmget)
    \<Rightarrow> (string option \<Rightarrow> pyval) \<Rightarrow> Redis \<Rightarrow> string \<Rightarrow> pyseq option
    \<Rightarrow> string option \<Rightarrow> string option \<Rightarrow> (pyval \<times> pyval) list io" where
  "Redis_hmget_with model bc self key' fields0 pre' ver' s =
     (if (case fields0 of Some (PyList xs) \<Rightarrow> xs = [] | Some (PyTuple xs) \<Rightarrow> False | None \<Rightarrow> False)
      then (Inr [], s)
      else
        (case model key' fields0 pre' ver' of
           Inl e \<Rightarrow> (Inl e, s)
         | Inr data \<Rightarrow>
             let k = cleankey self data
             in (case fields0 of
                   Some q \<Rightarrow>
                     andthen (r_hmget k (case Hmget.fields' data of Some q' \<Rightarrow> items q' | None \<Rightarrow> []))
                       (\<lambda>val_list. return (py_dict (zip (map PyStr (items q)) (map bc val_list)))) s
                 | None \<Rightarrow>
                     andthen (r_hgetall k)
                       (\<lambda>val_dict. return (py_dict (zip (map (\<lambda>p. bc (Some (fst p))) val_dict)
                                                         (map (\<lambda>p. bc (Some (snd p))) val_dict)))) s)))"

definition Redis_hmget :: "(string option \<Rightarrow> pyval) \<Rightarrow> Redis \<Rightarrow> string \<Rightarrow> pyseq option
    \<Rightarrow> string option \<Rightarrow> string option \<Rightarrow> (pyval \<times> pyval) list io" where
  "Redis_hmget = Redis_hmget_with models_Hmget"

definition Redis_hdel_with ::
    "(string \<Rightarrow> str_or_seq option \<Rightarrow> string option
      \<Rightarrow> string option \<Rightarrow> error + Hdel)
    \<Rightarrow> Redis \<Rightarrow> string \<Rightarrow> str_or_seq option \<Rightarrow> string option \<Rightarrow> string option
    \<Rightarrow> nat io" where
  "Redis_hdel_with model self key' fields0 pre' ver' s =
     (case model key' fields0 pre' ver' of
        Inl e \<Rightarrow> (Inl e, s)
      | Inr data \<Rightarrow>
          let k = cleankey self data
          in r_hdel k (Hdel.fields' data) s)"

definition Redis_hdel :: "Redis \<Rightarrow> string \<Rightarrow> str_or_seq option \<Rightarrow> string option \<Rightarrow> string option
    \<Rightarrow> nat io" where
  "Redis_hdel = Redis_hdel_with models_Hdel"

text \<open>The loop of \<^verbatim>\<open>delete\<close> over \<^verbatim>\<open>data.key\<close>, appending to \<^verbatim>\<open>cleaned\<close>.\<close>

fun delete_loop :: "Redis \<Rightarrow> Delete \<Rightarrow> string list \<Rightarrow> string list \<Rightarrow> string list" where
  "delete_loop self data [] cleaned = cleaned"
| "delete_loop self data (val' # rest) cleaned =
     (let pre' = and_or (Delete.pre data) (strip (self_pre self));
          ver' = and_or (Delete.ver data) (strip (self_ver self));
          lst = [pre', ver', val'];
          lst' = filter (\<lambda>x. x \<noteq> []) lst;
          k = join '':'' lst'
      in delete_loop self data rest (cleaned @ [k]))"

definition Redis_delete_with ::
    "(str_or_seq \<Rightarrow> string option \<Rightarrow> string option
      \<Rightarrow> error + Delete)
    \<Rightarrow> Redis \<Rightarrow> str_or_seq \<Rightarrow> string option \<Rightarrow> string option \<Rightarrow> nat io" where
  "Redis_delete_with model self key' pre' ver' s =
     (case model key' pre' ver' of
        Inl e \<Rightarrow> (Inl e, s)
      | Inr data \<Rightarrow>
          let cleaned = delete_loop self data (Delete.key data) []
          in r_delete cleaned s)"

definition Redis_delete :: "Redis \<Rightarrow> str_or_seq \<Rightarrow> string option \<Rightarrow> string option \<Rightarrow> nat io" where
  "Redis_delete = Redis_delete_with models_Delete"

section \<open>The validation error and its message\<close>

text \<open>
  Modelled from the spec: the class \<^verbatim>\<open>ValidationError\<close> of the package, which the test
  \<^verbatim>\<open>test_exception\<close> imports and whose source is not among the files. It is built
  either from a literal message or from an ordered sequence of allowed choices. The
  specification gives no message for an empty sequence of choices, hence the option.
\<close>

datatype ValidationError = FreeForm string | Choices "string list"

text \<open>The choices after the first, when there are three or more in all.\<close>

fun oxford :: "string list \<Rightarrow> string" where
  "oxford [] = []"
| "oxford [c] = '', or '' @ c"
| "oxford (c # d # cs) = '', '' @ c @ oxford (d # cs)"

fun message :: "ValidationError \<Rightarrow> string option" where
  "message (FreeForm m) = Some m"
| "message (Choices []) = None"
| "message (Choices [c]) = Some (''Arguments can only be: '' @ c @ ''.'')"
| "message (Choices [c1, c2]) = Some (''Arguments can only be: '' @ c1 @ '' or '' @ c2 @ ''.'')"
| "message (Choices (c # d # e # cs)) =
     Some (''Arguments can only be: '' @ c @ oxford (d # e # cs) @ ''.'')"

section \<open>Concrete inputs\<close>

text \<open>
  A model that can refuse: it refuses an empty required argument and otherwise answers as
  the given model does.
\<close>

definition refuse_empty :: "'a list \<Rightarrow> error + 'b \<Rightarrow> error + 'b" where
  "refuse_empty required answer = (if required = [] then Inl ValidationFailure else answer)"

text \<open>
  A client with no prefix and no version, an empty store, and a store that holds a hash,
  an empty string and a zero, two of the keys with an expiration.
\<close>

definition client0 :: Redis where
  "client0 = \<lparr>self_pre = [], self_ver = []\<rparr>"

definition store0 :: store where
  "store0 = \<lparr>db = Map.empty, ttls = Map.empty, calls = []\<rparr>"

definition store1 :: store where
  "store1 = \<lparr>db = [''user'' \<mapsto> Hash [(''age'', ''34''), (''name'', '''')], ''sam'' \<mapsto> Str '''',
                  ''zero'' \<mapsto> Str ''0''],
             ttls = [''user'' \<mapsto> 60, ''sam'' \<mapsto> 30], calls = []\<rparr>"

section \<open>Key composition\<close>

lemma cleankey_compose:
  "cleankey self data =
     compose (self_pre self) (self_ver self) (override (pre data)) (override (ver data)) (key data)"
  by (cases "pre data"; cases "ver data") (simp_all add: cleankey_def compose_def override_def
      Let_def)

text \<open>
  Claim C2. The key that \<^verbatim>\<open>_cleankey\<close> returns is the composed key of the
  specification: the per-call prefix if non-empty, else the trimmed instance prefix,
  likewise the version, then the base key, the empty ones dropped and the rest joined with
  a colon. Its three examples hold, and a non-empty per-call prefix stands in place of the
  instance prefix, which then takes no part in the key.
\<close>

theorem C2_key_composition:
  fixes self :: Redis and data :: "'a StarterModel_scheme"
  shows "cleankey self data =
       compose (self_pre self) (self_ver self) (override (pre data)) (override (ver data)) (key data)
   \<and> cleankey \<lparr>self_pre = [], self_ver = []\<rparr> \<lparr>key = ''k'', pre = Some [], ver = Some []\<rparr> = ''k''
   \<and> cleankey \<lparr>self_pre = ''app'', self_ver = []\<rparr> \<lparr>key = ''k'', pre = Some [], ver = Some []\<rparr> = ''app:k''
   \<and> cleankey \<lparr>self_pre = ''app'', self_ver = ''v1''\<rparr> \<lparr>key = ''k'', pre = Some [], ver = Some []\<rparr>
        = ''app:v1:k''
   \<and> (\<forall>p. p \<noteq> [] \<longrightarrow>
         cleankey self (data\<lparr>pre := Some p\<rparr>) =
           join '':'' (filter (\<lambda>x. x \<noteq> []) [p, and_or (ver data) (strip (self_ver self)), key data]))"
proof -
  have ex: "cleankey \<lparr>self_pre = [], self_ver = []\<rparr> \<lparr>key = ''k'', pre = Some [], ver = Some []\<rparr> = ''k''"
    "cleankey \<lparr>self_pre = ''app'', self_ver = []\<rparr> \<lparr>key = ''k'', pre = Some [], ver = Some []\<rparr> = ''app:k''"
    "cleankey \<lparr>self_pre = ''app'', self_ver = ''v1''\<rparr> \<lparr>key = ''k'', pre = Some [], ver = Some []\<rparr>
        = ''app:v1:k''"
    by (simp_all add: cleankey_def strip_def is_space_def)
  have ov: "\<forall>p. p \<noteq> [] \<longrightarrow>
         cleankey self (data\<lparr>pre := Some p\<rparr>) =
           join '':'' (filter (\<lambda>x. x \<noteq> []) [p, and_or (ver data) (strip (self_ver self)), key data])"
    by (simp add: cleankey_def Let_def)
  show ?thesis using ex ov cleankey_compose [of self data] by blast
qed

theorem C2_key_composition_witness:
  "cleankey \<lparr>self_pre = '' app '', self_ver = ''v1''\<rparr> \<lparr>key = ''k'', pre = Some ''x'', ver = None\<rparr>
     = ''x:v1:k''
   \<and> cleankey \<lparr>self_pre = '' app '', self_ver = ''v1''\<rparr> \<lparr>key = ''k'', pre = None, ver = None\<rparr>
     = ''app:v1:k''"
  using C2_key_composition [of "\<lparr>self_pre = '' app '', self_ver = ''v1''\<rparr>"
      "\<lparr>key = ''k'', pre = None, ver = None\<rparr>"]
  by (simp add: compose_def strip_def is_space_def override_def)

section \<open>The message of a validation error\<close>

lemma oxford_join:
  "xs \<noteq> [] \<Longrightarrow> c @ oxford xs = join '', '' (butlast (c # xs)) @ '', or '' @ last (c # xs)"
proof (induction xs arbitrary: c)
  case Nil
  then show ?case by simp
next
  case (Cons x xs)
  show ?case
  proof (cases xs)
    case Nil
    then show ?thesis by simp
  next
    case (Cons y ys)
    have "x @ oxford xs = join '', '' (butlast (x # xs)) @ '', or '' @ last (x # xs)"
      using Cons.IH [of x] Cons by simp
    then show ?thesis using Cons by simp
  qed
qed

text \<open>
  Claim C8. The message of a validation error depends on its ordered choices only: one
  choice gives \<^verbatim>\<open>Arguments can only be: c.\<close>, two give \<^verbatim>\<open>c1 or c2\<close>, three or more
  give the choices separated by commas with a comma before the final \<^verbatim>\<open>or\<close>, each with
  a trailing period; a free-form error gives its message unchanged. The four messages that
  \<^verbatim>\<open>test_exception\<close> asserts are instances.
\<close>

theorem C8_message_format:
  "message (FreeForm m) = Some m
   \<and> message (Choices [c]) = Some (''Arguments can only be: '' @ c @ ''.'')
   \<and> message (Choices [c1, c2]) = Some (''Arguments can only be: '' @ c1 @ '' or '' @ c2 @ ''.'')
   \<and> (3 \<le> length cs \<longrightarrow>
        message (Choices cs) =
          Some (''Arguments can only be: '' @ join '', '' (butlast cs) @ '', or '' @ last cs @ ''.''))
   \<and> message (Choices [''a'']) = Some ''Arguments can only be: a.''
   \<and> message (Choices [''a'', ''b'']) = Some ''Arguments can only be: a or b.''
   \<and> message (Choices [''a'', ''b'', ''c'']) = Some ''Arguments can only be: a, b, or c.''
   \<and> message (FreeForm ''This is it.'') = Some ''This is it.''"
proof -
  have three: "3 \<le> length cs \<longrightarrow>
        message (Choices cs) =
          Some (''Arguments can only be: '' @ join '', '' (butlast cs) @ '', or '' @ last cs @ ''.'')"
  proof
    assume len: "3 \<le> length cs"
    then obtain c d e rest where cs: "cs = c # d # e # rest"
      by (cases cs; cases "tl cs"; cases "tl (tl cs)") auto
    have "c @ oxford (d # e # rest) =
            join '', '' (butlast (c # d # e # rest)) @ '', or '' @ last (c # d # e # rest)"
      by (rule oxford_join) simp
    then show "message (Choices cs) =
          Some (''Arguments can only be: '' @ join '', '' (butlast cs) @ '', or '' @ last cs @ ''.'')"
      unfolding cs by (simp del: oxford.simps join.simps butlast.simps last.simps)
  qed
  show ?thesis using three by simp
qed

theorem C8_message_format_witness:
  "message (Choices [''start'', ''end'', ''middle'', ''none'']) =
     Some ''Arguments can only be: start, end, middle, or none.''"
  using C8_message_format [of undefined undefined undefined undefined "[''start'', ''end'', ''middle'', ''none'']"]
  by simp

section \<open>Reads\<close>

text \<open>
  Claim C1, at the input where the code departs from it. The key \<^verbatim>\<open>sam\<close> of
  \<open>store1\<close> holds the empty string and the field \<^verbatim>\<open>name\<close> of its hash \<^verbatim>\<open>user\<close>
  holds the empty string; both decode to the empty string, and \<^verbatim>\<open>get\<close> and
  \<^verbatim>\<open>hget\<close> return the caller's default \<^verbatim>\<open>D\<close> for them, as they do for the key
  \<^verbatim>\<open>none\<close> that the store does not hold. A stored zero is returned as it is.
\<close>

theorem C1_empty_string_replaced:
  "fst (Redis_get byte_conv client0 ''sam'' (PyStr ''D'') None None store1) = Inr (PyStr ''D'')
   \<and> db store1 ''sam'' = Some (Str '''')
   \<and> byte_conv (Some '''') = PyStr ''''
   \<and> fst (Redis_hget byte_conv client0 ''user'' ''name'' (PyStr ''D'') None None store1)
        = Inr (PyStr ''D'')
   \<and> fst (Redis_get byte_conv client0 ''zero'' (PyStr ''D'') None None store1) = Inr (PyInt 0)
   \<and> fst (Redis_get byte_conv client0 ''none'' (PyStr ''D'') None None store1) = Inr (PyStr ''D'')"
  by (simp add: Redis_get_def Redis_get_with_def Redis_hget_def Redis_hget_with_def
      models_Get_def models_Hget_def r_get_def r_hget_def
      andthen_def return_def sent_def cleankey_def strip_def client0_def store1_def
      parse_int_def is_digit_def to_nat_def digit_val_def float_text_def int_part_def unsigned_def
      Let_def)

section \<open>Empty inputs\<close>

text \<open>
  What holds of empty inputs: \<^verbatim>\<open>hmset\<close> with an empty mapping returns 0 and
  \<^verbatim>\<open>hmget\<close> with an explicit empty list of fields returns an empty mapping; in both
  cases the store, its trace of calls included, is the one before the call.
\<close>

lemma empty_input_short_circuit:
  "Redis_hmset self k [] t p v s = (Inr 0, s)
   \<and> Redis_hmget bc self k (Some (PyList [])) p v s = (Inr [], s)"
  by (simp add: Redis_hmset_def Redis_hmset_with_def Redis_hmget_def Redis_hmget_with_def)

text \<open>
  Claim C7, at the input where the code departs from it. \<^verbatim>\<open>hmget\<close> leaves early only
  under \<^verbatim>\<open>isinstance(fields, list)\<close>, so an empty tuple of fields, which its signature
  admits, is not answered with an empty mapping: it is sent to the store, which refuses
  an HMGET without fields.
\<close>

theorem C7_empty_tuple_reaches_store:
  "Redis_hmget byte_conv client0 ''k'' (Some (PyTuple [])) None None store0
     = (Inl ResponseError, store0\<lparr>calls := [HMGET ''k'' []]\<rparr>)
   \<and> Redis_hmget byte_conv client0 ''k'' (Some (PyTuple [])) None None store0 \<noteq> (Inr [], store0)"
  by (simp add: Redis_hmget_def Redis_hmget_with_def models_Hmget_def cleankey_def strip_def
      andthen_def r_hmget_def
      sent_def store0_def client0_def)

section \<open>Validation comes first\<close>

lemma r_set_raises [simp]: "fst (r_set n x a b s) \<noteq> Inl ValidationFailure"
  by (simp add: r_set_def Let_def split: option.splits)
lemma r_expire_raises [simp]: "fst (r_expire n t s) \<noteq> Inl ValidationFailure"
  by (simp add: r_expire_def Let_def)
lemma r_hset_raises [simp]: "fst (r_hset n f x m s) \<noteq> Inl ValidationFailure"
  by (simp add: r_hset_def Let_def split: option.splits entry.splits)
lemma r_get_raises [simp]: "fst (r_get n s) \<noteq> Inl ValidationFailure"
  by (simp add: r_get_def Let_def split: option.splits entry.splits)
lemma r_hget_raises [simp]: "fst (r_hget n f s) \<noteq> Inl ValidationFailure"
  by (simp add: r_hget_def Let_def split: option.splits entry.splits)
lemma r_hmget_raises [simp]: "fst (r_hmget n fs s) \<noteq> Inl ValidationFailure"
  by (simp add: r_hmget_def Let_def split: option.splits entry.splits)
lemma r_hgetall_raises [simp]: "fst (r_hgetall n s) \<noteq> Inl ValidationFailure"
  by (simp add: r_hgetall_def Let_def split: option.splits entry.splits)
lemma r_hdel_raises [simp]: "fst (r_hdel n fs s) \<noteq> Inl ValidationFailure"
  by (simp add: r_hdel_def Let_def split: option.splits entry.splits)
lemma r_delete_raises [simp]: "fst (r_delete ns s) \<noteq> Inl ValidationFailure"
  by (simp add: r_delete_def Let_def)
lemma return_raises [simp]: "fst (return x s) \<noteq> Inl ValidationFailure"
  by (simp add: return_def)

lemma andthen_raises:
  assumes "\<And>s. fst (m s) \<noteq> Inl ValidationFailure"
    and "\<And>x s. fst (f x s) \<noteq> Inl ValidationFailure"
  shows "fst (andthen m f s) \<noteq> Inl ValidationFailure"
proof (cases "m s")
  case (Pair r s1)
  show ?thesis
  proof (cases r)
    case (Inl e)
    with Pair assms(1) [of s] show ?thesis by (simp add: andthen_def)
  next
    case (Inr x)
    with Pair assms(2) [of x s1] show ?thesis by (simp add: andthen_def)
  qed
qed

lemma write_expire_raises:
  assumes "\<And>s. fst (w s) \<noteq> Inl ValidationFailure"
  shows "andthen w (\<lambda>ret. andthen (r_expire k t) (\<lambda>u. return ret)) s \<noteq> (Inl ValidationFailure, s')"
proof
  assume "andthen w (\<lambda>ret. andthen (r_expire k t) (\<lambda>u. return ret)) s = (Inl ValidationFailure, s')"
  then have "fst (andthen w (\<lambda>ret. andthen (r_expire k t) (\<lambda>u. return ret)) s) = Inl ValidationFailure"
    by simp
  moreover have "fst (andthen w (\<lambda>ret. andthen (r_expire k t) (\<lambda>u. return ret)) s) \<noteq> Inl ValidationFailure"
    by (rule andthen_raises [OF assms andthen_raises [OF r_expire_raises return_raises]])
  ultimately show False by simp
qed

lemma read_raises:
  assumes "\<And>s. fst (r s) \<noteq> Inl ValidationFailure"
  shows "andthen r (\<lambda>reply. return (g reply)) s \<noteq> (Inl ValidationFailure, s')"
proof
  assume "andthen r (\<lambda>reply. return (g reply)) s = (Inl ValidationFailure, s')"
  then have "fst (andthen r (\<lambda>reply. return (g reply)) s) = Inl ValidationFailure"
    by simp
  moreover have "fst (andthen r (\<lambda>reply. return (g reply)) s) \<noteq> Inl ValidationFailure"
    by (rule andthen_raises [OF assms return_raises])
  ultimately show False by simp
qed

lemma call_raises:
  "fst r \<noteq> Inl ValidationFailure \<Longrightarrow> r \<noteq> (Inl ValidationFailure, s')"
  by auto

lemma set_raised:
  "Redis_set_with model self k x a b t p v s = (Inl ValidationFailure, s') \<Longrightarrow> s' = s"
  by (auto simp: Redis_set_with_def Let_def write_expire_raises [OF r_set_raises]
      split: sum.splits)

lemma hset_raised:
  "Redis_hset_with model self k f x m t p v s = (Inl ValidationFailure, s') \<Longrightarrow> s' = s"
  by (auto simp: Redis_hset_with_def Let_def write_expire_raises [OF r_hset_raises]
      split: sum.splits)

lemma hmset_raised:
  "Redis_hmset_with model self k m t p v s = (Inl ValidationFailure, s') \<Longrightarrow> s' = s"
  by (auto simp: Redis_hmset_with_def Let_def write_expire_raises [OF r_hset_raises]
      split: sum.splits if_splits)

lemma get_raised:
  "Redis_get_with model bc self k d p v s = (Inl ValidationFailure, s') \<Longrightarrow> s' = s"
  by (auto simp: Redis_get_with_def Let_def read_raises [OF r_get_raises] split: sum.splits)

lemma hget_raised:
  "Redis_hget_with model bc self k f d p v s = (Inl ValidationFailure, s') \<Longrightarrow> s' = s"
  by (auto simp: Redis_hget_with_def Let_def read_raises [OF r_hget_raises] split: sum.splits)

lemma hmget_raised:
  "Redis_hmget_with model bc self k fs p v s = (Inl ValidationFailure, s') \<Longrightarrow> s' = s"
  by (auto simp: Redis_hmget_with_def Let_def read_raises [OF r_hmget_raises]
      read_raises [OF r_hgetall_raises] split: sum.splits if_splits option.splits)

lemma hdel_raised:
  "Redis_hdel_with model self k fs p v s = (Inl ValidationFailure, s') \<Longrightarrow> s' = s"
  by (auto simp: Redis_hdel_with_def Let_def call_raises [OF r_hdel_raises] split: sum.splits)

lemma delete_raised:
  "Redis_delete_with model self ks p v s = (Inl ValidationFailure, s') \<Longrightarrow> s' = s"
  by (auto simp: Redis_delete_with_def Let_def call_raises [OF r_delete_raises]
      split: sum.splits)

text \<open>
  Claim C9. Whatever the command models are, every operation builds its model before
  anything is sent: when the model refuses the arguments, the operation raises that error
  and the store, its trace of calls included, is unchanged (\<^verbatim>\<open>hmset\<close> and \<^verbatim>\<open>hmget\<close>
  build their model unless the input is empty); and whenever an operation raises a
  validation failure, the store is unchanged, since no command of the store raises one.
  The operations proper are the instances at the models of the specification.
\<close>

theorem C9_validation_before_store:
  "(MSet k val' xx' kt t p v = Inl e \<longrightarrow>
      Redis_set_with MSet self k val' xx' kt t p v s = (Inl e, s))
   \<and> (MHset k f val' m t p v = Inl e \<longrightarrow>
      Redis_hset_with MHset self k f val' m t p v s = (Inl e, s))
   \<and> (m' \<noteq> [] \<and> MHmset k m' t p v = Inl e \<longrightarrow>
      Redis_hmset_with MHmset self k m' t p v s = (Inl e, s))
   \<and> (MGet k d p v = Inl e \<longrightarrow> Redis_get_with MGet bc self k d p v s = (Inl e, s))
   \<and> (MHget k d p v = Inl e \<longrightarrow> Redis_hget_with MHget bc self k f d p v s = (Inl e, s))
   \<and> (fs \<noteq> Some (PyList []) \<and> MHmget k fs p v = Inl e \<longrightarrow>
      Redis_hmget_with MHmget bc self k fs p v s = (Inl e, s))
   \<and> (MHdel k fd p v = Inl e \<longrightarrow> Redis_hdel_with MHdel self k fd p v s = (Inl e, s))
   \<and> (MDelete ks p v = Inl e \<longrightarrow> Redis_delete_with MDelete self ks p v s = (Inl e, s))
   \<and> (Redis_set_with MSet self k val' xx' kt t p v s = (Inl ValidationFailure, s') \<longrightarrow> s' = s)
   \<and> (Redis_hset_with MHset self k f val' m t p v s = (Inl ValidationFailure, s') \<longrightarrow> s' = s)
   \<and> (Redis_hmset_with MHmset self k m' t p v s = (Inl ValidationFailure, s') \<longrightarrow> s' = s)
   \<and> (Redis_get_with MGet bc self k d p v s = (Inl ValidationFailure, s') \<longrightarrow> s' = s)
   \<and> (Redis_hget_with MHget bc self k f d p v s = (Inl ValidationFailure, s') \<longrightarrow> s' = s)
   \<and> (Redis_hmget_with MHmget bc self k fs p v s = (Inl ValidationFailure, s') \<longrightarrow> s' = s)
   \<and> (Redis_hdel_with MHdel self k fd p v s = (Inl ValidationFailure, s') \<longrightarrow> s' = s)
   \<and> (Redis_delete_with MDelete self ks p v s = (Inl ValidationFailure, s') \<longrightarrow> s' = s)"
proof -
  have first:
    "MSet k val' xx' kt t p v = Inl e \<longrightarrow>
      Redis_set_with MSet self k val' xx' kt t p v s = (Inl e, s)"
    "MHset k f val' m t p v = Inl e \<longrightarrow>
      Redis_hset_with MHset self k f val' m t p v s = (Inl e, s)"
    "m' \<noteq> [] \<and> MHmset k m' t p v = Inl e \<longrightarrow>
      Redis_hmset_with MHmset self k m' t p v s = (Inl e, s)"
    "MGet k d p v = Inl e \<longrightarrow> Redis_get_with MGet bc self k d p v s = (Inl e, s)"
    "MHget k d p v = Inl e \<longrightarrow> Redis_hget_with MHget bc self k f d p v s = (Inl e, s)"
    "MHdel k fd p v = Inl e \<longrightarrow> Redis_hdel_with MHdel self k fd p v s = (Inl e, s)"
    "MDelete ks p v = Inl e \<longrightarrow> Redis_delete_with MDelete self ks p v s = (Inl e, s)"
    by (simp_all add: Redis_set_with_def Redis_hset_with_def Redis_hmset_with_def
        Redis_get_with_def Redis_hget_with_def Redis_hdel_with_def Redis_delete_with_def)
  have hmget: "fs \<noteq> Some (PyList []) \<and> MHmget k fs p v = Inl e \<longrightarrow>
      Redis_hmget_with MHmget bc self k fs p v s = (Inl e, s)"
  proof
    assume a: "fs \<noteq> Some (PyList []) \<and> MHmget k fs p v = Inl e"
    then have "\<not> (case fs of Some (PyList xs) \<Rightarrow> xs = [] | Some (PyTuple xs) \<Rightarrow> False
        | None \<Rightarrow> False)"
      by (auto split: option.splits pyseq.splits)
    with a show "Redis_hmget_with MHmget bc self k fs p v s = (Inl e, s)"
      by (simp add: Redis_hmget_with_def)
  qed
  have second:
    "Redis_set_with MSet self k val' xx' kt t p v s = (Inl ValidationFailure, s') \<longrightarrow> s' = s"
    "Redis_hset_with MHset self k f val' m t p v s = (Inl ValidationFailure, s') \<longrightarrow> s' = s"
    "Redis_hmset_with MHmset self k m' t p v s = (Inl ValidationFailure, s') \<longrightarrow> s' = s"
    "Redis_get_with MGet bc self k d p v s = (Inl ValidationFailure, s') \<longrightarrow> s' = s"
    "Redis_hget_with MHget bc self k f d p v s = (Inl ValidationFailure, s') \<longrightarrow> s' = s"
    "Redis_hmget_with MHmget bc self k fs p v s = (Inl ValidationFailure, s') \<longrightarrow> s' = s"
    "Redis_hdel_with MHdel self k fd p v s = (Inl ValidationFailure, s') \<longrightarrow> s' = s"
    "Redis_delete_with MDelete self ks p v s = (Inl ValidationFailure, s') \<longrightarrow> s' = s"
    by (auto dest: set_raised hset_raised hmset_raised get_raised hget_raised hmget_raised
        hdel_raised delete_raised)
  show ?thesis
    by (intro conjI) (fact first hmget second)+
qed

theorem C9_validation_before_store_witness:
  "Redis_set_with (\<lambda>k x a b t p v. refuse_empty k (models_Set k x a b t p v))
      client0 [] (PyStr ''v'') False False None None None store1 = (Inl ValidationFailure, store1)
   \<and> Redis_get_with (\<lambda>k d p v. refuse_empty k (models_Get k d p v))
      byte_conv client0 [] (PyStr []) None None store1 = (Inl ValidationFailure, store1)
   \<and> Redis_delete_with (\<lambda>ks p v. refuse_empty (case ks of One x \<Rightarrow> [x] | Many q \<Rightarrow> items q)
                                    (models_Delete ks p v))
      client0 (Many (PyList [])) None None store1 = (Inl ValidationFailure, store1)
   \<and> models_Hdel ''user'' None None None = Inl ValidationFailure
   \<and> Redis_hdel client0 ''user'' None None None store1 = (Inl ValidationFailure, store1)
   \<and> Redis_hdel client0 ''user'' (Some (Many (PyTuple []))) None None store1
        = (Inl ValidationFailure, store1)"
  using C9_validation_before_store [where k = "[]" and e = ValidationFailure and self = client0
      and s = store1 and p = None and v = None and val' = "PyStr ''v''" and xx' = False
      and kt = False and t = None and d = "PyStr []" and bc = byte_conv
      and ks = "Many (PyList [])"
      and MSet = "\<lambda>k x a b t p v. refuse_empty k (models_Set k x a b t p v)"
      and MGet = "\<lambda>k d p v. refuse_empty k (models_Get k d p v)"
      and MDelete = "\<lambda>ks p v. refuse_empty (case ks of One x \<Rightarrow> [x] | Many q \<Rightarrow> items q)
                                    (models_Delete ks p v)"]
    C9_validation_before_store [where k = "''user''" and fd = None and p = None and v = None
      and e = ValidationFailure and self = client0 and s = store1 and MHdel = models_Hdel]
    C9_validation_before_store [where k = "''user''" and fd = "Some (Many (PyTuple []))"
      and p = None and v = None and e = ValidationFailure and self = client0 and s = store1
      and MHdel = models_Hdel]
  by (simp add: models_Hdel_def refuse_empty_def Redis_hdel_def)

section \<open>Deleting\<close>

lemma delete_loop_map:
  "delete_loop self data ks cleaned =
     cleaned @ map (\<lambda>val'. cleankey self \<lparr>key = val', pre = Delete.pre data, ver = Delete.ver data\<rparr>) ks"
  by (induction ks arbitrary: cleaned) (simp_all add: cleankey_def Let_def)

lemma count_present:
  "length (filter P (remdups xs)) = card {x \<in> set xs. P x}"
proof -
  have "distinct (filter P (remdups xs))" by simp
  then have "card (set (filter P (remdups xs))) = length (filter P (remdups xs))"
    by (rule distinct_card)
  moreover have "set (filter P (remdups xs)) = {x \<in> set xs. P x}" by auto
  ultimately show ?thesis by simp
qed

lemma Redis_delete_eq:
  assumes "ks = (case key' of One x \<Rightarrow> [x] | Many q \<Rightarrow> items q)"
    and "cleaned = map (\<lambda>val'. cleankey self \<lparr>key = val', pre = p, ver = v\<rparr>) ks"
    and "ks \<noteq> []"
  shows "Redis_delete self key' p v s =
     (Inr (card (set cleaned \<inter> dom (db s))),
      s\<lparr>calls := calls s @ [DEL cleaned],
        db := (\<lambda>k. if k \<in> set cleaned then None else db s k),
        ttls := (\<lambda>k. if k \<in> set cleaned then None else ttls s k)\<rparr>)"
proof -
  have "{x \<in> set cleaned. db s x \<noteq> None} = set cleaned \<inter> dom (db s)" by auto
  then show ?thesis using assms
    by (simp add: Redis_delete_def Redis_delete_with_def models_Delete_def delete_loop_map
      r_delete_def sent_def
        count_present Let_def)
qed

text \<open>
  Claim C6 fails for an empty sequence of keys: the loop composes nothing, a DEL without
  keys is sent, the store refuses it, and \<^verbatim>\<open>delete\<close> raises that error instead of
  returning a number.
\<close>

theorem C6_delete_empty_sequence:
  "Redis_delete client0 (Many (PyList [])) None None store1
     = (Inl ResponseError, store1\<lparr>calls := [DEL []]\<rparr>)"
  by (simp add: Redis_delete_def Redis_delete_with_def models_Delete_def r_delete_def sent_def
      store1_def)

text \<open>
  Claim C6, amended. For every call with at least one key, \<^verbatim>\<open>delete\<close> turns its key
  argument, a string or a non-empty sequence of strings, into a sequence, composes each
  base key with the per-call prefix and version or else the instance's, exactly as
  \<^verbatim>\<open>_cleankey\<close> does, sends one DEL with all the composed keys and returns the number
  of them that the store held. With the keys \<^verbatim>\<open>a\<close> and \<^verbatim>\<open>b\<close>, of which only
  \<^verbatim>\<open>a\<close> exists, it returns 1.
\<close>

theorem C6_delete_keys:
  assumes "ks = (case key' of One x \<Rightarrow> [x] | Many q \<Rightarrow> items q)"
    and "cleaned = map (\<lambda>val'. cleankey self \<lparr>key = val', pre = p, ver = v\<rparr>) ks"
    and "ks \<noteq> []"
  shows "Redis_delete self key' p v s =
       (Inr (card (set cleaned \<inter> dom (db s))),
        s\<lparr>calls := calls s @ [DEL cleaned],
          db := (\<lambda>k. if k \<in> set cleaned then None else db s k),
          ttls := (\<lambda>k. if k \<in> set cleaned then None else ttls s k)\<rparr>)
     \<and> (db s (cleankey self \<lparr>key = ''a'', pre = p, ver = v\<rparr>) \<noteq> None
          \<and> db s (cleankey self \<lparr>key = ''b'', pre = p, ver = v\<rparr>) = None
          \<longrightarrow> fst (Redis_delete self (Many (PyList [''a'', ''b''])) p v s) = Inr 1)"
proof -
  have "fst (Redis_delete self (Many (PyList [''a'', ''b''])) p v s) = Inr 1"
    if a: "db s (cleankey self \<lparr>key = ''a'', pre = p, ver = v\<rparr>) \<noteq> None"
      and b: "db s (cleankey self \<lparr>key = ''b'', pre = p, ver = v\<rparr>) = None"
  proof -
    define ka where "ka = cleankey self \<lparr>key = ''a'', pre = p, ver = v\<rparr>"
    define kb where "kb = cleankey self \<lparr>key = ''b'', pre = p, ver = v\<rparr>"
    have "Redis_delete self (Many (PyList [''a'', ''b''])) p v s =
        (Inr (card (set [ka, kb] \<inter> dom (db s))),
         s\<lparr>calls := calls s @ [DEL [ka, kb]],
           db := (\<lambda>k. if k \<in> set [ka, kb] then None else db s k),
           ttls := (\<lambda>k. if k \<in> set [ka, kb] then None else ttls s k)\<rparr>)"
      by (rule Redis_delete_eq [where ks = "[''a'', ''b'']"]) (simp_all add: ka_def kb_def)
    moreover have "set [ka, kb] \<inter> dom (db s) = {ka}"
      using a b by (auto simp: ka_def kb_def)
    ultimately show ?thesis by simp
  qed
  with Redis_delete_eq [OF assms, of s] show ?thesis by simp
qed

theorem C6_delete_keys_witness:
  "fst (Redis_delete \<lparr>self_pre = ''app'', self_ver = []\<rparr> (Many (PyList [''a'', ''b''])) None (Some ''v2'')
      \<lparr>db = [''app:v2:a'' \<mapsto> Str ''1''], ttls = Map.empty, calls = []\<rparr>) = Inr 1
   \<and> calls (snd (Redis_delete \<lparr>self_pre = ''app'', self_ver = []\<rparr> (Many (PyList [''a'', ''b'']))
        None (Some ''v2'') \<lparr>db = [''app:v2:a'' \<mapsto> Str ''1''], ttls = Map.empty, calls = []\<rparr>))
       = [DEL [''app:v2:a'', ''app:v2:b'']]
   \<and> db (snd (Redis_delete \<lparr>self_pre = ''app'', self_ver = []\<rparr> (Many (PyList [''a'', ''b'']))
        None (Some ''v2'') \<lparr>db = [''app:v2:a'' \<mapsto> Str ''1''], ttls = Map.empty, calls = []\<rparr>))
        ''app:v2:a'' = None"
  using C6_delete_keys [of "[''a'', ''b'']" "Many (PyList [''a'', ''b''])"
      "[''app:v2:a'', ''app:v2:b'']" "\<lparr>self_pre = ''app'', self_ver = []\<rparr>" None "Some ''v2''"
      "\<lparr>db = [''app:v2:a'' \<mapsto> Str ''1''], ttls = Map.empty, calls = []\<rparr>"]
  by (simp add: cleankey_def strip_def is_space_def)

text \<open>
  Claim C10. Neither \<^verbatim>\<open>hdel\<close> nor \<^verbatim>\<open>delete\<close> touches an expiration: every key the
  store holds after the call has the expiration it had before, and no EXPIRE is among the
  commands the call sends.
\<close>

theorem C10_delete_keeps_ttl:
  "(Redis_hdel self k fs p v s = (r, s') \<longrightarrow>
      (\<forall>x. db s' x \<noteq> None \<longrightarrow> ttls s' x = ttls s x)
      \<and> (\<forall>n t. EXPIRE n t \<notin> set (drop (length (calls s)) (calls s'))))
   \<and> (Redis_delete self ks p v s = (r, s'') \<longrightarrow>
      (\<forall>x. db s'' x \<noteq> None \<longrightarrow> ttls s'' x = ttls s x)
      \<and> (\<forall>n t. EXPIRE n t \<notin> set (drop (length (calls s)) (calls s''))))"
  by (auto simp: Redis_hdel_def Redis_hdel_with_def Redis_delete_def Redis_delete_with_def
      r_hdel_def r_delete_def sent_def Let_def
      split: sum.splits if_splits option.splits entry.splits)

theorem C10_delete_keeps_ttl_witness:
  "ttls (snd (Redis_hdel client0 ''user'' (Some (One ''age'')) None None store1)) ''user'' = Some 60
   \<and> db (snd (Redis_hdel client0 ''user'' (Some (One ''age'')) None None store1)) ''user''
        = Some (Hash [(''name'', '''')])
   \<and> ttls (snd (Redis_delete client0 (One ''sam'') None None store1)) ''user'' = Some 60
   \<and> calls (snd (Redis_delete client0 (One ''sam'') None None store1)) = [DEL [''sam'']]"
  using C10_delete_keeps_ttl [of client0 "''user''" "Some (One ''age'')" None None store1
      "fst (Redis_hdel client0 ''user'' (Some (One ''age'')) None None store1)"
      "snd (Redis_hdel client0 ''user'' (Some (One ''age'')) None None store1)"
      "One ''sam''"
      "snd (Redis_delete client0 (One ''sam'') None None store1)"]
  by (simp add: Redis_hdel_def Redis_hdel_with_def Redis_delete_def Redis_delete_with_def
      models_Hdel_def models_Delete_def r_hdel_def
      r_delete_def sent_def cleankey_def strip_def client0_def store1_def Let_def)

section \<open>Writes and their expiration\<close>

lemma cleankey_models [simp]:
  "cleankey self \<lparr>key = k, pre = p, ver = v, Set.val = x, xx = a, keepttl = b, Set.ttl = t\<rparr>
     = cleankey self \<lparr>key = k, pre = p, ver = v\<rparr>"
  "cleankey self \<lparr>key = k, pre = p, ver = v, field = f, Hset.val = x, Hset.mapping = m, Hset.ttl = t\<rparr>
     = cleankey self \<lparr>key = k, pre = p, ver = v\<rparr>"
  "cleankey self \<lparr>key = k, pre = p, ver = v, Hmset.mapping = m', Hmset.ttl = t\<rparr>
     = cleankey self \<lparr>key = k, pre = p, ver = v\<rparr>"
  "cleankey self \<lparr>key = k, pre = p, ver = v, Get.default = d\<rparr>
     = cleankey self \<lparr>key = k, pre = p, ver = v\<rparr>"
  "cleankey self \<lparr>key = k, pre = p, ver = v, Hget.default = d\<rparr>
     = cleankey self \<lparr>key = k, pre = p, ver = v\<rparr>"
  "cleankey self \<lparr>key = k, pre = p, ver = v, Hmget.fields' = q\<rparr>
     = cleankey self \<lparr>key = k, pre = p, ver = v\<rparr>"
  "cleankey self \<lparr>key = k, pre = p, ver = v, Hdel.fields' = fs\<rparr>
     = cleankey self \<lparr>key = k, pre = p, ver = v\<rparr>"
  by (simp_all add: cleankey_def)


lemma Redis_set_eq:
  assumes "encode x = Some b"
    and "k' = cleankey self \<lparr>key = k, pre = p, ver = v\<rparr>"
    and "t = (case ttl' of Some t' \<Rightarrow> t' | None \<Rightarrow> self_ttl)"
  shows "Redis_set self k x xx' kt ttl' p v s =
     (if xx' \<and> db s k' = None then
        (Inr False, s\<lparr>calls := calls s @ [SET k' b xx' kt, EXPIRE k' t]\<rparr>)
      else if t \<le> 0 then
        (Inr True, s\<lparr>calls := calls s @ [SET k' b xx' kt, EXPIRE k' t],
                     db := (db s)(k' := None), ttls := (ttls s)(k' := None)\<rparr>)
      else
        (Inr True, s\<lparr>calls := calls s @ [SET k' b xx' kt, EXPIRE k' t],
                     db := (db s)(k' \<mapsto> Str b), ttls := (ttls s)(k' \<mapsto> t)\<rparr>))"
  using assms
  by (simp add: Redis_set_def Redis_set_with_def models_Set_def andthen_def return_def r_set_def
      r_expire_def
      sent_def Let_def)

lemma r_hset_then_expire:
  assumes "pairs = (case f of None \<Rightarrow> [] | Some f' \<Rightarrow> [(f', x)]) @ (case m of None \<Rightarrow> [] | Some m' \<Rightarrow> m')"
    and "pairs \<noteq> []" and "encode_items pairs = Some bs" and "\<forall>y. db s k' \<noteq> Some (Str y)"
    and "s' = snd (andthen (r_hset k' f x m) (\<lambda>ret. andthen (r_expire k' t) (\<lambda>u. return ret)) s)"
  shows "calls s' = calls s @ [HSET k' bs, EXPIRE k' t]"
    and "db s' k' \<noteq> None \<longrightarrow> ttls s' k' = Some t"
    and "db s' k' \<noteq> None \<longleftrightarrow> 0 < t"
proof -
  have "\<exists>h n. r_hset k' f x m s =
      (Inr n, s\<lparr>calls := calls s @ [HSET k' bs], db := (db s)(k' \<mapsto> Hash h)\<rparr>)"
  proof (cases "db s k'")
    case None
    show ?thesis
      by (rule exI [of _ "fst (put_fields bs [] 0)"], rule exI [of _ "snd (put_fields bs [] 0)"])
        (use None assms(1-3) in \<open>simp add: r_hset_def sent_def Let_def\<close>)
  next
    case (Some a)
    show ?thesis
    proof (cases a)
      case (Str y)
      with Some assms(4) show ?thesis by simp
    next
      case (Hash h0)
      show ?thesis
        by (rule exI [of _ "fst (put_fields bs h0 0)"], rule exI [of _ "snd (put_fields bs h0 0)"])
          (use Some Hash assms(1-3) in \<open>simp add: r_hset_def sent_def Let_def\<close>)
    qed
  qed
  then obtain h n where w: "r_hset k' f x m s =
      (Inr n, s\<lparr>calls := calls s @ [HSET k' bs], db := (db s)(k' \<mapsto> Hash h)\<rparr>)"
    by blast
  then have s': "s' = snd (r_expire k' t (s\<lparr>calls := calls s @ [HSET k' bs], db := (db s)(k' \<mapsto> Hash h)\<rparr>))"
    using assms(5) by (simp add: andthen_def return_def split: prod.splits sum.splits)
  show "calls s' = calls s @ [HSET k' bs, EXPIRE k' t]"
    and "db s' k' \<noteq> None \<longrightarrow> ttls s' k' = Some t"
    and "db s' k' \<noteq> None \<longleftrightarrow> 0 < t"
    unfolding s' by (simp_all add: r_expire_def sent_def Let_def)
qed

text \<open>
  Claim C3 fails where the claim says it holds regardless: \<^verbatim>\<open>set\<close> with \<^verbatim>\<open>xx=True\<close> on
  a key the store does not hold writes nothing, and the EXPIRE that follows finds no key.
  After the call the key has no expiration of 1,209,600 seconds; it does not exist.
\<close>

theorem C3_conditional_write_no_expiration:
  "calls (snd (Redis_set client0 ''k'' (PyStr ''v'') True False None None None store0))
     = [SET ''k'' ''v'' True False, EXPIRE ''k'' 1209600]
   \<and> db (snd (Redis_set client0 ''k'' (PyStr ''v'') True False None None None store0)) ''k'' = None
   \<and> ttls (snd (Redis_set client0 ''k'' (PyStr ''v'') True False None None None store0)) ''k''
        \<noteq> Some 1209600"
  by (simp add: Redis_set_eq [where b = "''v''", OF _ refl refl] self_ttl_def cleankey_def
      client0_def store0_def strip_def)

text \<open>
  Claim C3, amended. For every call to \<^verbatim>\<open>set\<close>, \<^verbatim>\<open>hset\<close> or \<^verbatim>\<open>hmset\<close> with a
  non-empty mapping whose write the store accepts, the operation sends the write and then
  one EXPIRE for the composed key, with the per-call \<^verbatim>\<open>ttl\<close> when one was supplied and
  1,209,600 otherwise, whether or not the key existed and whether or not the conditional
  write took effect. If the key exists after the call, its expiration is that value; it
  exists exactly when the value is positive and, for \<^verbatim>\<open>set\<close>, the write was not an
  exists-only write on a missing key.
\<close>

theorem C3_write_then_expire:
  assumes "k' = cleankey self \<lparr>key = k, pre = p, ver = v\<rparr>"
    and "t = (case ttl' of Some t' \<Rightarrow> t' | None \<Rightarrow> 1209600)"
  shows "(encode x = Some b \<longrightarrow>
       (let s' = snd (Redis_set self k x xx' kt ttl' p v s)
        in calls s' = calls s @ [SET k' b xx' kt, EXPIRE k' t]
           \<and> (db s' k' \<noteq> None \<longrightarrow> ttls s' k' = Some t)
           \<and> (db s' k' \<noteq> None \<longleftrightarrow> 0 < t \<and> \<not> (xx' \<and> db s k' = None))))
   \<and> (encode_items ((f, x) # (case m of None \<Rightarrow> [] | Some m' \<Rightarrow> m')) = Some bs
        \<and> (\<forall>y. db s k' \<noteq> Some (Str y)) \<longrightarrow>
       (let s' = snd (Redis_hset self k f x m ttl' p v s)
        in calls s' = calls s @ [HSET k' bs, EXPIRE k' t]
           \<and> (db s' k' \<noteq> None \<longrightarrow> ttls s' k' = Some t)
           \<and> (db s' k' \<noteq> None \<longleftrightarrow> 0 < t)))
   \<and> (mp \<noteq> [] \<and> encode_items mp = Some bs' \<and> (\<forall>y. db s k' \<noteq> Some (Str y)) \<longrightarrow>
       (let s' = snd (Redis_hmset self k mp ttl' p v s)
        in calls s' = calls s @ [HSET k' bs', EXPIRE k' t]
           \<and> (db s' k' \<noteq> None \<longrightarrow> ttls s' k' = Some t)
           \<and> (db s' k' \<noteq> None \<longleftrightarrow> 0 < t)))"
proof -
  have t: "t = (case ttl' of Some t' \<Rightarrow> t' | None \<Rightarrow> self_ttl)"
    using assms(2) by (simp add: self_ttl_def split: option.splits)
  have set: "let s' = snd (Redis_set self k x xx' kt ttl' p v s)
        in calls s' = calls s @ [SET k' b xx' kt, EXPIRE k' t]
           \<and> (db s' k' \<noteq> None \<longrightarrow> ttls s' k' = Some t)
           \<and> (db s' k' \<noteq> None \<longleftrightarrow> 0 < t \<and> \<not> (xx' \<and> db s k' = None))"
    if "encode x = Some b"
    by (simp add: Redis_set_eq [OF that assms(1) t] Let_def)
  have hset: "let s' = snd (Redis_hset self k f x m ttl' p v s)
        in calls s' = calls s @ [HSET k' bs, EXPIRE k' t]
           \<and> (db s' k' \<noteq> None \<longrightarrow> ttls s' k' = Some t)
           \<and> (db s' k' \<noteq> None \<longleftrightarrow> 0 < t)"
    if "encode_items ((f, x) # (case m of None \<Rightarrow> [] | Some m' \<Rightarrow> m')) = Some bs"
      and "\<forall>y. db s k' \<noteq> Some (Str y)"
  proof -
    have s': "snd (Redis_hset self k f x m ttl' p v s) =
        snd (andthen (r_hset k' (Some f) x m) (\<lambda>ret. andthen (r_expire k' t) (\<lambda>u. return ret)) s)"
      by (simp add: Redis_hset_def Redis_hset_with_def models_Hset_def Let_def assms(1) t)
    show ?thesis
      unfolding Let_def
      using r_hset_then_expire [where f = "Some f" and x = x and m = m and bs = bs and s = s
          and k' = k' and t = t, OF refl _ _ that(2) s'] that(1)
      by simp
  qed
  have hmset: "let s' = snd (Redis_hmset self k mp ttl' p v s)
        in calls s' = calls s @ [HSET k' bs', EXPIRE k' t]
           \<and> (db s' k' \<noteq> None \<longrightarrow> ttls s' k' = Some t)
           \<and> (db s' k' \<noteq> None \<longleftrightarrow> 0 < t)"
    if "mp \<noteq> []" and "encode_items mp = Some bs'" and "\<forall>y. db s k' \<noteq> Some (Str y)"
  proof -
    have s': "snd (Redis_hmset self k mp ttl' p v s) =
        snd (andthen (r_hset k' None PyNone (Some mp)) (\<lambda>ret. andthen (r_expire k' t) (\<lambda>u. return ret)) s)"
      using that(1) by (simp add: Redis_hmset_def Redis_hmset_with_def models_Hmset_def Let_def assms(1) t)
    show ?thesis
      unfolding Let_def
      using r_hset_then_expire [where f = None and x = PyNone and m = "Some mp" and bs = bs'
          and s = s and k' = k' and t = t, OF refl _ _ that(3) s'] that(1,2)
      by simp
  qed
  show ?thesis using set hset hmset by blast
qed

theorem C3_write_then_expire_witness:
  "ttls (snd (Redis_set client0 ''sam'' (PyStr ''v'') True False (Some 60) None None store1)) ''sam''
     = Some 60
   \<and> ttls (snd (Redis_hset client0 ''user'' ''age'' (PyInt 35) None None None None store1)) ''user''
     = Some 1209600
   \<and> calls (snd (Redis_hmset client0 ''new'' [(''a'', PyStr ''x'')] (Some 5) None None store1))
     = [HSET ''new'' [(''a'', ''x'')], EXPIRE ''new'' 5]
   \<and> ttls (snd (Redis_hmset client0 ''new'' [(''a'', PyStr ''x'')] (Some 5) None None store1)) ''new''
     = Some 5"
  using C3_write_then_expire [of "''sam''" client0 "''sam''" None None 60 "Some 60" "PyStr ''v''" "''v''"
      True False store1 "''age''" None "[(''age'', ''v'')]" "[(''a'', PyStr ''x'')]" "[(''a'', ''x'')]"]
    C3_write_then_expire [of "''user''" client0 "''user''" None None 1209600 None "PyInt 35" "''35''"
      True False store1 "''age''" None "[(''age'', ''35'')]" "[(''a'', PyStr ''x'')]" "[(''a'', ''x'')]"]
    C3_write_then_expire [of "''new''" client0 "''new''" None None 5 "Some 5" "PyInt 35" "''35''"
      True False store1 "''age''" None "[(''age'', ''35'')]" "[(''a'', PyStr ''x'')]" "[(''a'', ''x'')]"]
  by (simp add: cleankey_def strip_def client0_def store1_def Let_def repr_int_def decimal.simps)

section \<open>Writing a value and reading it back\<close>



















section \<open>Reading several fields\<close>

lemma zip_fields:
  "zip (map PyStr fs) (map bc (map g fs)) = map (\<lambda>f. (PyStr f, bc (g f))) fs"
  by (induction fs) simp_all

lemma update_fresh: "k \<notin> fst ` set al \<Longrightarrow> AList.update k v al = al @ [(k, v)]"
  by (induction al) auto

lemma insert_all_lookup:
  "map_of (foldl (\<lambda>d (k, v). AList.update k v d) d (map (\<lambda>f. (PyStr f, h f)) fs)) (PyStr f) =
     (if f \<in> set fs then Some (h f) else map_of d (PyStr f))"
  by (induction fs arbitrary: d) (simp_all add: update_conv')

lemma insert_all_distinct:
  "distinct (map fst xs) \<Longrightarrow> fst ` set xs \<inter> fst ` set d = {} \<Longrightarrow>
     foldl (\<lambda>d (k, v). AList.update k v d) d xs = d @ xs"
proof (induction xs arbitrary: d)
  case Nil
  then show ?case by simp
next
  case (Cons x xs)
  obtain k v where x: "x = (k, v)" by (cases x)
  have fresh: "k \<notin> fst ` set d" using Cons.prems(2) x by auto
  have "foldl (\<lambda>d (k, v). AList.update k v d) (d @ [(k, v)]) xs = (d @ [(k, v)]) @ xs"
  proof (rule Cons.IH)
    show "distinct (map fst xs)" using Cons.prems(1) by simp
    show "fst ` set xs \<inter> fst ` set (d @ [(k, v)]) = {}"
      using Cons.prems x by auto
  qed
  then show ?case using x fresh by (simp add: update_fresh)
qed

lemma remdups_drop_later:
  "k \<in> set ys \<Longrightarrow> remdups (xs @ k # ys) = remdups (xs @ ys)"
  by (induction xs) auto

lemma insert_all_order:
  "map fst (foldl (\<lambda>d (k, v). AList.update k v d) d xs) = rev (remdups (rev (map fst d @ map fst xs)))"
  if "distinct (map fst d)"
  using that
proof (induction xs arbitrary: d)
  case Nil
  then show ?case by (simp add: distinct_remdups_id)
next
  case (Cons x xs)
  obtain k v where x: "x = (k, v)" by (cases x)
  have d': "distinct (map fst (AList.update k v d))"
    using Cons.prems by (rule distinct_update)
  have "map fst (foldl (\<lambda>d (k, v). AList.update k v d) (AList.update k v d) xs) =
      rev (remdups (rev (map fst (AList.update k v d) @ map fst xs)))"
    using d' by (rule Cons.IH)
  also have "\<dots> = rev (remdups (rev (map fst d @ k # map fst xs)))"
  proof (cases "k \<in> fst ` set d")
    case True
    then have "k \<in> set (rev (map fst d))" by simp
    then have "remdups (rev (map fst xs) @ k # rev (map fst d)) =
        remdups (rev (map fst xs) @ rev (map fst d))"
      by (rule remdups_drop_later)
    then show ?thesis using True by (simp add: update_keys)
  next
    case False
    then show ?thesis by (simp add: update_keys)
  qed
  finally show ?case using x by simp
qed

lemma Redis_hmget_fields:
  assumes "items q = fs" and "fs \<noteq> []"
    and "k' = cleankey self \<lparr>key = k, pre = p, ver = v\<rparr>"
    and "db s k' = None \<and> h = [] \<or> db s k' = Some (Hash h)"
  shows "Redis_hmget bc self k (Some q) p v s =
     (Inr (py_dict (map (\<lambda>f. (PyStr f, bc (map_of h f))) fs)), s\<lparr>calls := calls s @ [HMGET k' fs]\<rparr>)"
proof -
  have "\<not> (case Some q of Some (PyList xs) \<Rightarrow> xs = [] | Some (PyTuple xs) \<Rightarrow> False | None \<Rightarrow> False)"
    using assms(1,2) by (cases q) auto
  moreover have "r_hmget k' fs s = (Inr (map (map_of h) fs), s\<lparr>calls := calls s @ [HMGET k' fs]\<rparr>)"
    using assms(2,4) by (auto simp: r_hmget_def sent_def Let_def)
  ultimately show ?thesis
    using assms(1,3)
    by (simp add: Redis_hmget_def Redis_hmget_with_def models_Hmget_def andthen_def return_def
      Let_def zip_fields
        del: map_map)
qed

text \<open>
  Claim C5. For a non-empty sequence of fields and a key that holds a hash or nothing,
  \<^verbatim>\<open>hmget\<close> sends one HMGET and returns the dictionary of the requested field names
  with their decoded values: its keys are the requested names in the order of their first
  request, so for distinct names the result pairs them in request order; each requested
  name is mapped to its decoded value, and a name the hash does not hold is mapped to the
  decoded absent reply rather than left out.
\<close>

theorem C5_hmget_fields:
  assumes "items q = fs" and "fs \<noteq> []"
    and "k' = cleankey self \<lparr>key = k, pre = p, ver = v\<rparr>"
    and "db s k' = None \<and> h = [] \<or> db s k' = Some (Hash h)"
    and "d = py_dict (map (\<lambda>f. (PyStr f, bc (map_of h f))) fs)"
  shows "Redis_hmget bc self k (Some q) p v s = (Inr d, s\<lparr>calls := calls s @ [HMGET k' fs]\<rparr>)
     \<and> map fst d = rev (remdups (rev (map PyStr fs)))
     \<and> (distinct fs \<longrightarrow> d = map (\<lambda>f. (PyStr f, bc (map_of h f))) fs)
     \<and> (\<forall>f \<in> set fs. map_of d (PyStr f) = Some (bc (map_of h f)))
     \<and> (\<forall>f \<in> set fs. map_of h f = None \<longrightarrow> map_of d (PyStr f) = Some (bc None))"
proof -
  have call: "Redis_hmget bc self k (Some q) p v s = (Inr d, s\<lparr>calls := calls s @ [HMGET k' fs]\<rparr>)"
    using Redis_hmget_fields [OF assms(1-4)] assms(5) by simp
  have order: "map fst d = rev (remdups (rev (map PyStr fs)))"
    unfolding assms(5) py_dict_def
    by (subst insert_all_order) (simp_all add: comp_def)
  have same: "d = map (\<lambda>f. (PyStr f, bc (map_of h f))) fs" if "distinct fs"
    unfolding assms(5) py_dict_def
    by (subst insert_all_distinct) (simp_all add: comp_def distinct_map inj_on_def that)
  have look: "map_of d (PyStr f) = Some (bc (map_of h f))" if "f \<in> set fs" for f
    unfolding assms(5) py_dict_def using that by (simp add: insert_all_lookup)
  have absent: "map_of d (PyStr f) = Some (bc None)" if "f \<in> set fs" "map_of h f = None" for f
    using look [OF that(1)] that(2) by simp
  show ?thesis using call order same look absent by blast
qed

theorem C5_hmget_fields_witness:
  "Redis_hmget byte_conv client0 ''user'' (Some (PyList [''name'', ''height'', ''age''])) None None store1
     = (Inr [(PyStr ''name'', PyStr ''''), (PyStr ''height'', PyNone), (PyStr ''age'', PyInt 34)],
        store1\<lparr>calls := [HMGET ''user'' [''name'', ''height'', ''age'']]\<rparr>)"
  using C5_hmget_fields [of "PyList [''name'', ''height'', ''age'']" "[''name'', ''height'', ''age'']"
      "''user''" client0 "''user''" None None store1 "[(''age'', ''34''), (''name'', '''')]"
      "[(PyStr ''name'', PyStr ''''), (PyStr ''height'', PyNone), (PyStr ''age'', PyInt 34)]"
      byte_conv]
  by (simp add: cleankey_def strip_def client0_def store1_def py_dict_def parse_int_def is_digit_def
      to_nat_def digit_val_def float_text_def int_part_def unsigned_def)

end
